theory Spec2Isabelle
  imports Complex_Main
begin

section \<open>The realtime session manager of the voice assistant front-end\<close>

text \<open>
  The session manager is the \<open>App\<close> component: a set of React state cells and refs,
  mutated by callbacks (user toggle, channel events, timer expirations). The model is
  explicit state passing over one record that holds every state cell and ref the
  callbacks touch. Each callback is a function from the state before to the state after.

  An \<open>await\<close> is a suspension point. A callback with an \<open>await\<close> in the middle is
  given as its part before the suspension and its part after it, and as the composition
  of the two, which is the run in which no other callback fires in between.

  What the browser does is recorded in the state as well: the pending window timers
  (\<open>timers\<close>), the calls \<open>sourceNode.start(t)\<close> on the output timeline
  (\<open>timeline\<close>), the calls \<open>stop()\<close> on source nodes (\<open>stopped\<close>), the calls of
  \<open>getUserMedia\<close> and of \<open>ai.live.connect\<close> (\<open>micRequests\<close>, \<open>opens\<close>) and the frames
  handed to \<open>sendRealtimeInput\<close> (\<open>outbound\<close>).

  Every call of \<open>ai.live.connect\<close> is one connection attempt with its own
  \<open>sessionPromise\<close> and its own callbacks. Attempts are numbered from 1 in the order of
  the calls; \<open>resolved\<close> and \<open>rejected\<close> hold the attempts whose promise has settled, and
  the callbacks that belong to an attempt take its number.

  Times of the output audio context are JavaScript numbers (seconds); they are modelled
  as exact reals, so rounding of the additions is not part of the model.
\<close>

subsection \<open>Data model\<close>

datatype JarvisStatus = IDLE | LISTENING | THINKING | SPEAKING | RECONNECTING | ERROR

datatype LogSource = SYSTEM | USER | JARVIS

text \<open>A log entry. Its \<open>id\<close> (from \<open>Math.random\<close>) and its \<open>timestamp\<close> (from the
  wall clock) carry no logic and are left out.\<close>

record LogEntry =
  message :: string
  source :: LogSource

datatype TranscriptionType = Tinput | Toutput

record TranscriptionItem =
  itemText :: string
  itemType :: TranscriptionType

record InlineData =
  mimeType :: string
  data :: string

text \<open>A part of a model turn; \<open>inlineData\<close> may be absent.\<close>

record Part =
  inlineData :: "InlineData option"

text \<open>The fields of \<open>message.serverContent\<close> that \<open>onmessage\<close> reads. A transcription
  is given by its text.\<close>

record LiveServerMessage =
  outputTranscription :: "string option"
  inputTranscription :: "string option"
  turnComplete :: bool
  parts :: "Part list"
  interrupted :: bool

record app =
  status :: JarvisStatus
  logs :: "LogEntry list"
  transcriptions :: "TranscriptionItem list"
  currentTranscription :: "TranscriptionItem option"
  currentHologram :: "string option"
  isConnected :: bool
  audioContext :: bool
  outputAudioContext :: bool
  session :: bool
  mediaStream :: bool
  nextStartTime :: real
  sources :: "nat set"
  bufInput :: string
  bufOutput :: string
  scriptProcessor :: "nat option"
  reconnectAttempts :: nat
  isIntentionalDisconnect :: bool
  isConnecting :: bool
  reconnectTimer :: "nat option"
  timers :: "(nat \<times> nat) list"
  nextTimer :: nat
  nextNode :: nat
  timeline :: "(nat \<times> real \<times> real) list"
  stopped :: "nat set"
  micRequests :: nat
  opens :: nat
  resolved :: "nat set"
  rejected :: "nat set"
  pendingFrames :: "(nat \<times> string) list"
  outbound :: "string list"

definition MAX_RECONNECT_ATTEMPTS :: nat where
  "MAX_RECONNECT_ATTEMPTS = 5"

definition RECONNECT_DELAY_BASE :: nat where
  "RECONNECT_DELAY_BASE = 3000"

subsection \<open>Logging and teardown\<close>

text \<open>\<open>setLogs(prev => [newLog, ...prev].slice(0, 30))\<close>\<close>

definition addLog :: "string \<Rightarrow> LogSource \<Rightarrow> app \<Rightarrow> app" where
  "addLog msg src s = s\<lparr>logs := take 30 (\<lparr>message = msg, source = src\<rparr> # logs s)\<rparr>"

text \<open>\<open>cleanup\<close> up to its \<open>await\<close> of the 150 ms cool-down. Every release is guarded
  by its own \<open>try\<close>, so nothing is raised.\<close>

definition cleanup :: "app \<Rightarrow> app" where
  "cleanup s = s\<lparr>session := False, scriptProcessor := None, mediaStream := False,
     stopped := stopped s \<union> sources s, sources := {},
     isConnected := False, isConnecting := False, nextStartTime := 0\<rparr>"

text \<open>\<open>if (reconnectTimerRef.current) window.clearTimeout(reconnectTimerRef.current)\<close>:
  a handle is a number, truthy unless it is 0; the ref itself is left as it is.\<close>

definition clearReconnectTimer :: "app \<Rightarrow> app" where
  "clearReconnectTimer s =
     (case reconnectTimer s of
        None \<Rightarrow> s
      | Some t \<Rightarrow> if t = 0 then s else s\<lparr>timers := filter (\<lambda>p. fst p \<noteq> t) (timers s)\<rparr>)"

subsection \<open>User stop\<close>

definition disconnect_begin :: "app \<Rightarrow> app" where
  "disconnect_begin s = cleanup (clearReconnectTimer (s\<lparr>isIntentionalDisconnect := True\<rparr>))"

definition disconnect_resume :: "app \<Rightarrow> app" where
  "disconnect_resume s =
     addLog ''System Standby. Communications array powered down.'' SYSTEM
       (s\<lparr>status := IDLE, currentTranscription := None, currentHologram := None,
          reconnectAttempts := 0\<rparr>)"

definition disconnect :: "app \<Rightarrow> app" where
  "disconnect s = disconnect_resume (disconnect_begin s)"

subsection \<open>Reconnection with backoff\<close>

text \<open>\<open>Math.min(15000, RECONNECT_DELAY_BASE * Math.pow(2, attempts - 1))\<close>, computed
  after the increment, so \<open>attempts \<ge> 1\<close> there.\<close>

definition backoffDelay :: "nat \<Rightarrow> nat" where
  "backoffDelay attempts = min 15000 (RECONNECT_DELAY_BASE * 2 ^ (attempts - 1))"

text \<open>\<open>handleReconnection\<close> after its \<open>await cleanup()\<close>. \<open>window.setTimeout\<close> returns a
  fresh handle and adds the timer to the pending ones.\<close>

definition handleReconnection_resume :: "app \<Rightarrow> app" where
  "handleReconnection_resume s =
     (if isIntentionalDisconnect s then s
      else if reconnectAttempts s < MAX_RECONNECT_ATTEMPTS then
        (let n = reconnectAttempts s + 1;
             delay = backoffDelay n
         in s\<lparr>reconnectAttempts := n,
              reconnectTimer := Some (nextTimer s),
              timers := timers s @ [(nextTimer s, delay)],
              nextTimer := nextTimer s + 1\<rparr>)
      else
        (addLog ''Neural Link Restoration Failed. System Lockout Active.'' SYSTEM
           (s\<lparr>status := ERROR\<rparr>))\<lparr>reconnectAttempts := 0\<rparr>)"

definition handleReconnection :: "app \<Rightarrow> app" where
  "handleReconnection s = handleReconnection_resume (cleanup s)"

subsection \<open>Opening a session\<close>

text \<open>Decimal digits of a number, for the template string of the attempt log line.\<close>

fun showNat :: "nat \<Rightarrow> string" where
  "showNat n = (if n < 10 then [char_of (48 + n)]
                else showNat (n div 10) @ [char_of (48 + n mod 10)])"

declare showNat.simps [simp del]

text \<open>\<open>!apiKey\<close>: the key is \<open>undefined\<close> or the empty string.\<close>

definition keyMissing :: "string option \<Rightarrow> bool" where
  "keyMissing apiKey = (case apiKey of None \<Rightarrow> True | Some k \<Rightarrow> k = [])"

text \<open>The \<open>catch\<close> block of \<open>initSession\<close>. It calls \<open>handleReconnection()\<close> without
  awaiting it.\<close>

definition initSession_catch :: "app \<Rightarrow> app" where
  "initSession_catch s =
     handleReconnection
       (addLog ''Primary Link Failed. Check Local Array.'' SYSTEM
          (s\<lparr>isConnecting := False, status := ERROR\<rparr>))"

text \<open>The first lines of the \<open>try\<close> block: the status and log line of the attempt.\<close>

definition announceAttempt :: "app \<Rightarrow> app" where
  "announceAttempt s =
     (if reconnectAttempts s = 0 then
        addLog ''Establishing Neural Bridge...'' SYSTEM (s\<lparr>status := THINKING\<rparr>)
      else
        addLog (''Re-routing Satellite Link: Attempt '' @ showNat (reconnectAttempts s)
                @ ''/'' @ showNat MAX_RECONNECT_ATTEMPTS @ ''...'') SYSTEM
          (s\<lparr>status := RECONNECTING\<rparr>))"

text \<open>
  \<open>initSession\<close> up to the point where the channel open is in flight. The second guard
  reads \<open>isConnected\<close>, a state cell: the callback sees the value of the render that made
  it, given here as \<open>isConnectedSeen\<close>. The environment gives the credential
  (\<open>process.env.API_KEY\<close>) and whether \<open>getUserMedia\<close> resolves (\<open>micGranted\<close>); a
  rejection is thrown into the \<open>catch\<close> block, as the missing key is. With the key and
  the microphone, \<open>ai.live.connect\<close> is called: attempt \<open>opens s + 1\<close> is in flight.
\<close>

definition initSession :: "bool \<Rightarrow> string option \<Rightarrow> bool \<Rightarrow> app \<Rightarrow> app" where
  "initSession isConnectedSeen apiKey micGranted s =
     (if isConnecting s then s
      else if isConnectedSeen \<and> \<not> isIntentionalDisconnect s then s
      else
        (let s1 = announceAttempt (s\<lparr>isConnecting := True\<rparr>)
         in if keyMissing apiKey then initSession_catch (s1\<lparr>isConnecting := False\<rparr>)
            else
              (let s2 = s1\<lparr>micRequests := micRequests s1 + 1\<rparr>
               in if \<not> micGranted then initSession_catch s2
                  else s2\<lparr>mediaStream := True, audioContext := True,
                          outputAudioContext := True, opens := opens s2 + 1\<rparr>)))"

text \<open>\<open>sessionRef.current = await sessionPromise\<close> for attempt \<open>a\<close>: the promise resolves,
  and the frames that waited for it are sent; or it rejects into the \<open>catch\<close> block, and
  the frames that waited for it are dropped.\<close>

definition initSession_resolved :: "nat \<Rightarrow> app \<Rightarrow> app" where
  "initSession_resolved a s =
     s\<lparr>session := True, resolved := insert a (resolved s),
       outbound := outbound s @ map snd (filter (\<lambda>p. fst p = a) (pendingFrames s)),
       pendingFrames := filter (\<lambda>p. fst p \<noteq> a) (pendingFrames s)\<rparr>"

definition initSession_rejected :: "nat \<Rightarrow> app \<Rightarrow> app" where
  "initSession_rejected a s =
     initSession_catch
       (s\<lparr>rejected := insert a (rejected s),
          pendingFrames := filter (\<lambda>p. fst p \<noteq> a) (pendingFrames s)\<rparr>)"

text \<open>The callback given to \<open>window.setTimeout\<close> by \<open>handleReconnection\<close>. A timer that
  is not pending does not fire. The callback calls the \<open>initSession\<close> of the render that
  made it, with what that render saw of \<open>isConnected\<close>.\<close>

definition reconnectTimerFired :: "nat \<Rightarrow> bool \<Rightarrow> string option \<Rightarrow> bool \<Rightarrow> app \<Rightarrow> app" where
  "reconnectTimerFired t isConnectedSeen apiKey micGranted s =
     (if t \<in> fst ` set (timers s) then
        (let s1 = s\<lparr>timers := filter (\<lambda>p. fst p \<noteq> t) (timers s)\<rparr>
         in if \<not> isIntentionalDisconnect s1
            then initSession isConnectedSeen apiKey micGranted s1 else s1)
      else s)"

text \<open>\<open>toggleSession\<close> is made anew by every render and calls the \<open>initSession\<close> of that
  render.\<close>

definition toggleSession :: "string option \<Rightarrow> bool \<Rightarrow> app \<Rightarrow> app" where
  "toggleSession apiKey micGranted s =
     (if isConnected s \<or> isConnecting s then disconnect s
      else initSession (isConnected s) apiKey micGranted
             (s\<lparr>reconnectAttempts := 0, isIntentionalDisconnect := False\<rparr>))"

text \<open>The button of the header: \<open>onClick={toggleSession}\<close>,
  \<open>disabled={isConnectingRef.current}\<close>. The attribute is the value of the ref at the
  last render; every change of the ref comes with a state update that renders again, and
  the value is taken here as the current one.\<close>

definition toggleDisabled :: "app \<Rightarrow> bool" where
  "toggleDisabled s = isConnecting s"

definition onClick :: "string option \<Rightarrow> bool \<Rightarrow> app \<Rightarrow> app" where
  "onClick apiKey micGranted s =
     (if toggleDisabled s then s else toggleSession apiKey micGranted s)"

subsection \<open>Channel callbacks\<close>

text \<open>\<open>onopen\<close> of attempt \<open>a\<close>: the handshake is complete. The script processor is
  created, given its \<open>onaudioprocess\<close> handler and connected between the microphone
  source and the destination; \<open>scriptProcessor\<close> holds that wired node, by the attempt
  whose \<open>sessionPromise\<close> its handler sends through. The node is made by
  \<open>audioContextRef.current!\<close>: without a capture context the call throws and the rest
  of the callback is not run.\<close>

definition onopen :: "nat \<Rightarrow> app \<Rightarrow> app" where
  "onopen a s =
     (let s1 = addLog ''Satellite Link Stabilized. Secure connection, Sir.'' JARVIS
                 (s\<lparr>isConnected := True, isConnecting := False, status := IDLE,
                    isIntentionalDisconnect := False, reconnectAttempts := 0\<rparr>)
      in if audioContext s then s1\<lparr>scriptProcessor := Some a\<rparr> else s1)"

text \<open>\<open>onaudioprocess\<close> fires only while the processor node is connected. The frame,
  already encoded by \<open>createPcmBlob\<close>, goes through \<open>sessionPromise.then\<close>: it is handed
  to \<open>sendRealtimeInput\<close> at once when the promise of the attempt has resolved, waits
  while the promise is pending, and is dropped by the \<open>catch\<close> when it has rejected.\<close>

definition onaudioprocess :: "string \<Rightarrow> app \<Rightarrow> app" where
  "onaudioprocess pcmBlob s =
     (case scriptProcessor s of
        None \<Rightarrow> s
      | Some a \<Rightarrow>
          if a \<in> resolved s then s\<lparr>outbound := outbound s @ [pcmBlob]\<rparr>
          else if a \<in> rejected s then s
          else s\<lparr>pendingFrames := pendingFrames s @ [(a, pcmBlob)]\<rparr>)"

definition onerror :: "app \<Rightarrow> app" where
  "onerror s =
     (if \<not> isIntentionalDisconnect s then
        handleReconnection (addLog ''Link Collision Detected. Resetting Protocols...'' SYSTEM s)
      else s)"

definition onclose :: "app \<Rightarrow> app" where
  "onclose s =
     (if \<not> isIntentionalDisconnect s then
        handleReconnection (addLog ''Satellite Bridge Severed. Searching for path...'' SYSTEM s)
      else s)"

text \<open>The same two callbacks up to the suspension inside \<open>handleReconnection\<close>; the rest
  is \<open>handleReconnection_resume\<close>.\<close>

definition onerror_begin :: "app \<Rightarrow> app" where
  "onerror_begin s =
     (if \<not> isIntentionalDisconnect s then
        cleanup (addLog ''Link Collision Detected. Resetting Protocols...'' SYSTEM s)
      else s)"

definition onclose_begin :: "app \<Rightarrow> app" where
  "onclose_begin s =
     (if \<not> isIntentionalDisconnect s then
        cleanup (addLog ''Satellite Bridge Severed. Searching for path...'' SYSTEM s)
      else s)"

subsection \<open>Inbound messages\<close>

text \<open>The transcription fragments: \<open>if (outputTranscription) ... else if
  (inputTranscription) ...\<close>.\<close>

definition transcriptionStep :: "LiveServerMessage \<Rightarrow> app \<Rightarrow> app" where
  "transcriptionStep m s =
     (case outputTranscription m of
        Some txt \<Rightarrow>
          s\<lparr>bufOutput := bufOutput s @ txt,
            currentTranscription := Some \<lparr>itemText = bufOutput s @ txt, itemType = Toutput\<rparr>,
            status := SPEAKING\<rparr>
      | None \<Rightarrow>
          (case inputTranscription m of
             Some txt \<Rightarrow>
               s\<lparr>bufInput := bufInput s @ txt,
                 currentTranscription := Some \<lparr>itemText = bufInput s @ txt, itemType = Tinput\<rparr>,
                 status := LISTENING\<rparr>
           | None \<Rightarrow> s))"

text \<open>\<open>xs.slice(-5)\<close>: the last five elements, or all of them when there are fewer.\<close>

definition sliceLast5 :: "'a list \<Rightarrow> 'a list" where
  "sliceLast5 xs = drop (length xs - 5) xs"

text \<open>The body of \<open>if (message.serverContent?.turnComplete)\<close>. An empty string is
  falsy.\<close>

definition turnCompleteBlock :: "app \<Rightarrow> app" where
  "turnCompleteBlock s =
     (let inp = bufInput s;
          out = bufOutput s;
          s1 = (if inp \<noteq> [] then addLog inp USER s else s);
          s2 = (if out \<noteq> [] then addLog out JARVIS s1 else s1);
          ty = (if out \<noteq> [] then Toutput else Tinput);
          item = \<lparr>itemText = (if out \<noteq> [] then out else inp), itemType = ty\<rparr>
      in s2\<lparr>transcriptions := sliceLast5 (transcriptions s2 @ [item]),
            bufInput := [], bufOutput := [],
            status := IDLE, currentTranscription := None\<rparr>)"

definition turnCompleteStep :: "LiveServerMessage \<Rightarrow> app \<Rightarrow> app" where
  "turnCompleteStep m s = (if turnComplete m then turnCompleteBlock s else s)"

subsection \<open>Playback scheduling\<close>

text \<open>\<open>nextStartTimeRef.current = Math.max(nextStartTimeRef.current, ctx.currentTime)\<close>\<close>

definition advanceCursor :: "real \<Rightarrow> app \<Rightarrow> app" where
  "advanceCursor now s = s\<lparr>nextStartTime := max (nextStartTime s) now\<rparr>"

text \<open>A decoded buffer of duration \<open>d\<close>: a fresh source node is created, started at the
  cursor, the cursor moves on by \<open>d\<close>, and the node joins the active sources.\<close>

definition startSource :: "real \<Rightarrow> app \<Rightarrow> app" where
  "startSource d s =
     s\<lparr>timeline := timeline s @ [(nextNode s, nextStartTime s, d)],
       nextStartTime := nextStartTime s + d,
       sources := insert (nextNode s) (sources s),
       nextNode := nextNode s + 1\<rparr>"

text \<open>
  The audio branch of the loop over the parts. \<open>decodeAudioData\<close> and \<open>decode\<close> live in
  \<open>utils/audioUtils\<close>; \<open>dur\<close> gives the duration of the buffer decoded from a
  payload, or \<open>None\<close> when decoding throws. A throw leaves the handler at that point
  (\<open>Inl\<close>), with the cursor already moved.
\<close>

definition audioPart :: "(string \<Rightarrow> real option) \<Rightarrow> real \<Rightarrow> string \<Rightarrow> app \<Rightarrow> app + app" where
  "audioPart dur now base64Audio s =
     (if outputAudioContext s then
        (case dur base64Audio of
           None \<Rightarrow> Inl (advanceCursor now s)
         | Some d \<Rightarrow> Inr (startSource d (advanceCursor now s)))
      else Inr s)"

definition handlePart :: "(string \<Rightarrow> real option) \<Rightarrow> real \<Rightarrow> Part \<Rightarrow> app \<Rightarrow> app + app" where
  "handlePart dur now p s =
     (case inlineData p of
        None \<Rightarrow> Inr s
      | Some i \<Rightarrow>
          if take 6 (mimeType i) = ''image/'' then
            Inr (addLog ''Initiating Holodesk Projection Sequence...'' JARVIS
                   (s\<lparr>currentHologram :=
                        Some (''data:'' @ mimeType i @ '';base64,'' @ data i)\<rparr>))
          else if mimeType i = ''audio/pcm;rate=24000'' then audioPart dur now (data i) s
          else Inr s)"

fun processParts :: "(string \<Rightarrow> real option) \<Rightarrow> real \<Rightarrow> Part list \<Rightarrow> app \<Rightarrow> app + app" where
  "processParts dur now [] s = Inr s"
| "processParts dur now (p # ps) s =
     (case handlePart dur now p s of
        Inl s' \<Rightarrow> Inl s'
      | Inr s' \<Rightarrow> processParts dur now ps s')"

text \<open>The body of \<open>if (message.serverContent?.interrupted)\<close>.\<close>

definition interruptionBlock :: "app \<Rightarrow> app" where
  "interruptionBlock s =
     addLog ''Synthesis Interrupted. Buffer Purged.'' SYSTEM
       (s\<lparr>stopped := stopped s \<union> sources s, sources := {}, nextStartTime := 0,
          status := IDLE, currentTranscription := None\<rparr>)"

text \<open>\<open>onmessage\<close>; \<open>now\<close> is \<open>ctx.currentTime\<close> while the message is handled. The
  handler is taken as one step: its \<open>await\<close> of the decoder resumes before the next
  message is handled.\<close>

definition onmessage :: "(string \<Rightarrow> real option) \<Rightarrow> real \<Rightarrow> LiveServerMessage \<Rightarrow> app \<Rightarrow> app" where
  "onmessage dur now m s =
     (case processParts dur now (parts m) (turnCompleteStep m (transcriptionStep m s)) of
        Inl s' \<Rightarrow> s'
      | Inr s' \<Rightarrow> if interrupted m then interruptionBlock s' else s')"

text \<open>The \<open>ended\<close> listener of a source node.\<close>

definition onended :: "nat \<Rightarrow> app \<Rightarrow> app" where
  "onended node s = s\<lparr>sources := sources s - {node}\<rparr>"

text \<open>A run of inbound messages, each with the clock reading at its arrival.\<close>

fun onmessages :: "(string \<Rightarrow> real option) \<Rightarrow> (real \<times> LiveServerMessage) list \<Rightarrow> app \<Rightarrow> app" where
  "onmessages dur [] s = s"
| "onmessages dur (e # es) s = onmessages dur es (onmessage dur (fst e) (snd e) s)"

subsection \<open>The state at mount\<close>

text \<open>The initial values of the state cells and refs; no timer, node or frame exists
  yet. Timer handles start at 1.\<close>

definition initialApp :: app where
  "initialApp = \<lparr>status = IDLE, logs = [], transcriptions = [],
     currentTranscription = None, currentHologram = None, isConnected = False,
     audioContext = False, outputAudioContext = False, session = False,
     mediaStream = False, nextStartTime = 0, sources = {}, bufInput = [],
     bufOutput = [], scriptProcessor = None, reconnectAttempts = 0,
     isIntentionalDisconnect = False, isConnecting = False, reconnectTimer = None,
     timers = [], nextTimer = 1, nextNode = 0, timeline = [], stopped = {},
     micRequests = 0, opens = 0, resolved = {}, rejected = {}, pendingFrames = [],
     outbound = []\<rparr>"

subsection \<open>Failed reconnection attempts\<close>

text \<open>
  The ways a connection attempt fails: the credential is absent, the microphone is
  refused, the open promise rejects, or the channel reports an error or a close while
  the open is in flight.
\<close>

datatype failure = KeyAbsent | MicDenied | OpenRejected | ChannelError | ChannelClose

text \<open>One automatic attempt that fails: the timer held in \<open>reconnectTimerRef\<close> fires,
  \<open>initSession\<close> runs, and the failure is reported once. The render that made the
  timer's callback saw \<open>isConnected\<close> false: every chain of callbacks starts at a toggle
  made while not connected.\<close>

definition failedAttempt :: "failure \<Rightarrow> app \<Rightarrow> app" where
  "failedAttempt f s =
     (case reconnectTimer s of
        None \<Rightarrow> s
      | Some t \<Rightarrow>
          (case f of
             KeyAbsent \<Rightarrow> reconnectTimerFired t False None True s
           | MicDenied \<Rightarrow> reconnectTimerFired t False (Some ''k'') False s
           | OpenRejected \<Rightarrow>
               (let s1 = reconnectTimerFired t False (Some ''k'') True s
                in initSession_rejected (opens s1) s1)
           | ChannelError \<Rightarrow> onerror (reconnectTimerFired t False (Some ''k'') True s)
           | ChannelClose \<Rightarrow> onclose (reconnectTimerFired t False (Some ''k'') True s)))"

fun failedAttempts :: "failure list \<Rightarrow> app \<Rightarrow> app" where
  "failedAttempts [] s = s"
| "failedAttempts (f # fs) s = failedAttempts fs (failedAttempt f s)"

text \<open>Between two attempts of the reconnection loop: attempt \<open>k\<close> is scheduled, its timer
  is the only one pending and is the one the ref holds.\<close>

definition armed :: "nat \<Rightarrow> app \<Rightarrow> bool" where
  "armed k s = (\<not> isIntentionalDisconnect s \<and> \<not> isConnecting s \<and> \<not> isConnected s
     \<and> reconnectAttempts s = k
     \<and> (case reconnectTimer s of
           None \<Rightarrow> False
         | Some t \<Rightarrow> timers s = [(t, backoffDelay k)]))"

text \<open>At the report of a failure: \<open>k\<close> attempts are counted and no timer is pending.\<close>

definition failing :: "nat \<Rightarrow> app \<Rightarrow> bool" where
  "failing k s = (\<not> isIntentionalDisconnect s \<and> reconnectAttempts s = k \<and> timers s = [])"

subsection \<open>Reading the output timeline\<close>

text \<open>Entries of the timeline are (node, start, duration). \<open>noOverlap c es\<close>: the entries
  of \<open>es\<close>, in order, each start no earlier than the end of the one before, and the first
  no earlier than \<open>c\<close>.\<close>

fun noOverlap :: "real \<Rightarrow> (nat \<times> real \<times> real) list \<Rightarrow> bool" where
  "noOverlap c [] = True"
| "noOverlap c (e # es) = (c \<le> fst (snd e) \<and> noOverlap (fst (snd e) + snd (snd e)) es)"

text \<open>The end of the last entry, or \<open>c\<close> when there is none.\<close>

fun lastEnd :: "real \<Rightarrow> (nat \<times> real \<times> real) list \<Rightarrow> real" where
  "lastEnd c [] = c"
| "lastEnd c (e # es) = lastEnd (fst (snd e) + snd (snd e)) es"

text \<open>The silence before each entry: its start minus the end of the one before (minus
  \<open>c\<close> for the first).\<close>

fun gaps :: "real \<Rightarrow> (nat \<times> real \<times> real) list \<Rightarrow> real list" where
  "gaps c [] = []"
| "gaps c (e # es) = (fst (snd e) - c) # gaps (fst (snd e) + snd (snd e)) es"

text \<open>What the state \<open>s'\<close> has scheduled since the state \<open>s\<close>.\<close>

definition scheduledSince :: "app \<Rightarrow> app \<Rightarrow> (nat \<times> real \<times> real) list" where
  "scheduledSince s s' = drop (length (timeline s)) (timeline s')"

text \<open>\<open>s'\<close> continues the playback of \<open>s\<close>: the timeline is extended at its end, without
  overlap, and the cursor is at or beyond the end of the last entry and not behind where
  it was.\<close>

definition continues :: "app \<Rightarrow> app \<Rightarrow> bool" where
  "continues s s' =
     (take (length (timeline s)) (timeline s') = timeline s
      \<and> length (timeline s) \<le> length (timeline s')
      \<and> noOverlap (nextStartTime s) (scheduledSince s s')
      \<and> lastEnd (nextStartTime s) (scheduledSince s s') \<le> nextStartTime s'
      \<and> nextStartTime s \<le> nextStartTime s')"

subsection \<open>Messages of one kind\<close>

definition emptyMessage :: LiveServerMessage where
  "emptyMessage = \<lparr>outputTranscription = None, inputTranscription = None,
     turnComplete = False, parts = [], interrupted = False\<rparr>"

definition audioChunk :: "string \<Rightarrow> LiveServerMessage" where
  "audioChunk b = emptyMessage\<lparr>parts :=
     [\<lparr>inlineData = Some \<lparr>mimeType = ''audio/pcm;rate=24000'', data = b\<rparr>\<rparr>]\<rparr>"

definition fragment :: "TranscriptionType \<Rightarrow> string \<Rightarrow> LiveServerMessage" where
  "fragment ty txt =
     (case ty of
        Tinput \<Rightarrow> emptyMessage\<lparr>inputTranscription := Some txt\<rparr>
      | Toutput \<Rightarrow> emptyMessage\<lparr>outputTranscription := Some txt\<rparr>)"

definition turnCompleteSignal :: LiveServerMessage where
  "turnCompleteSignal = emptyMessage\<lparr>turnComplete := True\<rparr>"

text \<open>The fragments of one direction, joined in arrival order.\<close>

definition joined :: "TranscriptionType \<Rightarrow> (TranscriptionType \<times> string) list \<Rightarrow> string" where
  "joined ty frs = concat (map snd (filter (\<lambda>p. fst p = ty) frs))"

text \<open>The state a handler leaves behind, whether it ran to its end or was left by a
  throw.\<close>

definition outcome :: "app + app \<Rightarrow> app" where
  "outcome r = (case r of Inl s \<Rightarrow> s | Inr s \<Rightarrow> s)"

text \<open>A decoder for examples: every payload decodes to one second of audio.\<close>

definition oneSecond :: "string \<Rightarrow> real option" where
  "oneSecond b = Some 1"

text \<open>A run of transcription fragments, all arriving at output time \<open>now\<close>.\<close>

definition fragmentsAt :: "real \<Rightarrow> (TranscriptionType \<times> string) list \<Rightarrow> (real \<times> LiveServerMessage) list" where
  "fragmentsAt now frs = map (\<lambda>p. (now, fragment (fst p) (snd p))) frs"

text \<open>The item a turn-complete signal files, from the two buffers.\<close>

definition turnItem :: "string \<Rightarrow> string \<Rightarrow> TranscriptionItem" where
  "turnItem inp out =
     \<lparr>itemText = (if out \<noteq> [] then out else inp),
      itemType = (if out \<noteq> [] then Toutput else Tinput)\<rparr>"

text \<open>The log entries a turn-complete signal emits, newest first as they sit in the
  log.\<close>

definition turnEntries :: "string \<Rightarrow> string \<Rightarrow> LogEntry list" where
  "turnEntries inp out =
     (if out \<noteq> [] then [\<lparr>message = out, source = JARVIS\<rparr>] else [])
     @ (if inp \<noteq> [] then [\<lparr>message = inp, source = USER\<rparr>] else [])"

subsection \<open>Three runs from the state at mount\<close>

text \<open>A user start whose channel closes before the handshake, and then four automatic
  attempts that each end the same way: five failed connection attempts in a row.\<close>

definition failedStartRun :: app where
  "failedStartRun =
     onclose (reconnectTimerFired 4 False (Some ''k'') True
    (onclose (reconnectTimerFired 3 False (Some ''k'') True
    (onclose (reconnectTimerFired 2 False (Some ''k'') True
    (onclose (reconnectTimerFired 1 False (Some ''k'') True
    (onclose (onClick (Some ''k'') True initialApp)))))))))"

text \<open>A session that is connected and then dropped, where the channel reports every
  failure twice, by \<open>onerror\<close> and then by \<open>onclose\<close>: the drop, and the two automatic
  attempts that follow. Each report schedules a timer; the second timer of a pair fires
  while the attempt of the first is in flight.\<close>

definition doubleReportRun :: app where
  "doubleReportRun =
     onclose (onerror
    (reconnectTimerFired 4 False (Some ''k'') True
    (reconnectTimerFired 3 False (Some ''k'') True
    (onclose (onerror
    (reconnectTimerFired 2 False (Some ''k'') True
    (reconnectTimerFired 1 False (Some ''k'') True
    (onclose (onerror
    (onopen 1 (onClick (Some ''k'') True initialApp)))))))))))"

text \<open>Two opens in flight at once. Attempt 1 is started by a click and reports an error;
  the timer starts attempt 2; the promise of attempt 1 then rejects, which clears the
  connecting flag; a click starts attempt 3; the handshake of attempt 2 completes. The
  session is connected, the button is enabled, and attempt 3 is still in flight.\<close>

definition twoOpensRun :: app where
  "twoOpensRun =
     onopen 2 (onClick (Some ''k'') True
    (initSession_rejected 1
    (reconnectTimerFired 1 False (Some ''k'') True
    (onerror (onClick (Some ''k'') True initialApp)))))"

section \<open>Properties\<close>

subsection \<open>What teardown and logging leave alone\<close>

lemma cleanup_keeps:
  "timers (cleanup s) = timers s"
  "nextTimer (cleanup s) = nextTimer s"
  "reconnectTimer (cleanup s) = reconnectTimer s"
  "reconnectAttempts (cleanup s) = reconnectAttempts s"
  "isIntentionalDisconnect (cleanup s) = isIntentionalDisconnect s"
  "status (cleanup s) = status s"
  "logs (cleanup s) = logs s"
  "micRequests (cleanup s) = micRequests s"
  "opens (cleanup s) = opens s"
  "audioContext (cleanup s) = audioContext s"
  by (simp_all add: cleanup_def)

lemma cleanup_resets:
  "isConnected (cleanup s) = False"
  "isConnecting (cleanup s) = False"
  "sources (cleanup s) = {}"
  "nextStartTime (cleanup s) = 0"
  by (simp_all add: cleanup_def)

lemma addLog_keeps:
  "status (addLog msg src s) = status s"
  "timers (addLog msg src s) = timers s"
  "nextTimer (addLog msg src s) = nextTimer s"
  "reconnectTimer (addLog msg src s) = reconnectTimer s"
  "reconnectAttempts (addLog msg src s) = reconnectAttempts s"
  "isIntentionalDisconnect (addLog msg src s) = isIntentionalDisconnect s"
  "isConnecting (addLog msg src s) = isConnecting s"
  "isConnected (addLog msg src s) = isConnected s"
  "timeline (addLog msg src s) = timeline s"
  "nextStartTime (addLog msg src s) = nextStartTime s"
  "sources (addLog msg src s) = sources s"
  "stopped (addLog msg src s) = stopped s"
  "nextNode (addLog msg src s) = nextNode s"
  "outputAudioContext (addLog msg src s) = outputAudioContext s"
  "transcriptions (addLog msg src s) = transcriptions s"
  "bufInput (addLog msg src s) = bufInput s"
  "bufOutput (addLog msg src s) = bufOutput s"
  "scriptProcessor (addLog msg src s) = scriptProcessor s"
  "micRequests (addLog msg src s) = micRequests s"
  "opens (addLog msg src s) = opens s"
  by (simp_all add: addLog_def)

subsection \<open>Backoff\<close>

lemma backoffDelay_values:
  "map backoffDelay [1, 2, 3, 4, 5] = [3000, 6000, 12000, 15000, 15000]"
  by (simp add: backoffDelay_def RECONNECT_DELAY_BASE_def)

text \<open>
  C1. When the reconnection handler runs for attempt \<open>n\<close>, \<open>1 \<le> n \<le> 5\<close> (the counter
  stands at \<open>n - 1\<close> and the disconnect is not intentional), it first raises the counter
  to \<open>n\<close> and then schedules one timer whose delay is \<open>min 15000 (3000 * 2^(n-1))\<close>
  milliseconds. For attempts 1 to 5 the delays are 3000, 6000, 12000, 15000, 15000.
\<close>

theorem backoff_delay_sequence:
  assumes "1 \<le> n" and "n \<le> 5"
    and "\<not> isIntentionalDisconnect s" and "reconnectAttempts s = n - 1"
  shows "reconnectAttempts (handleReconnection s) = n
    \<and> timers (handleReconnection s)
        = timers s @ [(nextTimer s, min 15000 (3000 * 2 ^ (n - 1)))]
    \<and> reconnectTimer (handleReconnection s) = Some (nextTimer s)
    \<and> backoffDelay n = min 15000 (3000 * 2 ^ (n - 1))
    \<and> map backoffDelay [1, 2, 3, 4, 5] = [3000, 6000, 12000, 15000, 15000]"
proof -
  from assms have lt: "reconnectAttempts (cleanup s) < MAX_RECONNECT_ATTEMPTS"
    by (simp add: MAX_RECONNECT_ATTEMPTS_def cleanup_keeps)
  from assms have suc: "reconnectAttempts s + 1 = n"
    by simp
  have run: "handleReconnection s =
      (cleanup s)\<lparr>reconnectAttempts := n, reconnectTimer := Some (nextTimer s),
        timers := timers s @ [(nextTimer s, backoffDelay n)],
        nextTimer := nextTimer s + 1\<rparr>"
    using assms(3) lt suc
    by (simp add: handleReconnection_def handleReconnection_resume_def Let_def cleanup_keeps)
  have d: "backoffDelay n = min 15000 (3000 * 2 ^ (n - 1))"
    by (simp add: backoffDelay_def RECONNECT_DELAY_BASE_def)
  show ?thesis
    using backoffDelay_values by (simp add: run d)
qed

theorem backoff_delay_sequence_witness:
  "reconnectAttempts (handleReconnection (initialApp\<lparr>reconnectAttempts := 2\<rparr>)) = 3
   \<and> timers (handleReconnection (initialApp\<lparr>reconnectAttempts := 2\<rparr>)) = [(1, 12000)]"
  using backoff_delay_sequence [of 3 "initialApp\<lparr>reconnectAttempts := 2\<rparr>"]
  by (simp add: initialApp_def)

subsection \<open>The reconnection ceiling\<close>

lemma handleReconnection_schedules:
  assumes "\<not> isIntentionalDisconnect s" and "reconnectAttempts s < 5"
  shows "handleReconnection s =
      (cleanup s)\<lparr>reconnectAttempts := reconnectAttempts s + 1,
        reconnectTimer := Some (nextTimer s),
        timers := timers s @ [(nextTimer s, backoffDelay (reconnectAttempts s + 1))],
        nextTimer := nextTimer s + 1\<rparr>"
  using assms
  by (simp add: handleReconnection_def handleReconnection_resume_def Let_def cleanup_keeps
      MAX_RECONNECT_ATTEMPTS_def)

lemma handleReconnection_gives_up:
  assumes "\<not> isIntentionalDisconnect s" and "\<not> reconnectAttempts s < 5"
  shows "handleReconnection s =
      (addLog ''Neural Link Restoration Failed. System Lockout Active.'' SYSTEM
         ((cleanup s)\<lparr>status := ERROR\<rparr>))\<lparr>reconnectAttempts := 0\<rparr>"
  using assms
  by (simp add: handleReconnection_def handleReconnection_resume_def cleanup_keeps
      MAX_RECONNECT_ATTEMPTS_def)

lemma announceAttempt_keeps:
  "timers (announceAttempt s) = timers s"
  "reconnectAttempts (announceAttempt s) = reconnectAttempts s"
  "isIntentionalDisconnect (announceAttempt s) = isIntentionalDisconnect s"
  "isConnecting (announceAttempt s) = isConnecting s"
  "nextTimer (announceAttempt s) = nextTimer s"
  "micRequests (announceAttempt s) = micRequests s"
  "opens (announceAttempt s) = opens s"
  by (simp_all add: announceAttempt_def addLog_keeps)

lemma failing_catch:
  "failing k s \<Longrightarrow> \<exists>s1. initSession_catch s = handleReconnection s1 \<and> failing k s1"
  by (auto simp add: initSession_catch_def failing_def addLog_keeps)

text \<open>Every way of failing ends in one call of the reconnection handler, with the
  counter untouched and the fired timer gone.\<close>

lemma failedAttempt_reports:
  assumes "armed k s"
  shows "\<exists>s1. failedAttempt f s = handleReconnection s1 \<and> failing k s1"
proof -
  from assms obtain t where td: "timers s = [(t, backoffDelay k)]" "reconnectTimer s = Some t"
    and a: "\<not> isIntentionalDisconnect s" "\<not> isConnecting s" "\<not> isConnected s"
      "reconnectAttempts s = k"
    by (auto simp: armed_def split: option.splits)
  define s0 where "s0 = s\<lparr>timers := []\<rparr>"
  define s1 where "s1 = announceAttempt (s0\<lparr>isConnecting := True\<rparr>)"
  define s1m where "s1m = s1\<lparr>micRequests := micRequests s1 + 1\<rparr>"
  let ?s2 = "s1m\<lparr>mediaStream := True, audioContext := True, outputAudioContext := True,
                opens := opens s1m + 1\<rparr>"
  have f1: "failing k s1"
    using a by (simp add: failing_def s1_def s0_def announceAttempt_keeps)
  then have f1m: "failing k s1m"
    by (simp add: failing_def s1m_def)
  then have f2: "failing k ?s2"
    by (simp add: failing_def)
  have fire: "reconnectTimerFired t False key mic s = initSession False key mic s0" for key mic
    using td a by (simp add: reconnectTimerFired_def Let_def s0_def)
  have none: "initSession False None True s0 = initSession_catch (s1\<lparr>isConnecting := False\<rparr>)"
    using a by (simp add: initSession_def Let_def s0_def s1_def keyMissing_def)
  have mic: "initSession False (Some ''k'') False s0 = initSession_catch s1m"
    using a by (simp add: initSession_def Let_def s0_def s1_def s1m_def keyMissing_def)
  have ok: "initSession False (Some ''k'') True s0 = ?s2"
    using a by (simp add: initSession_def Let_def s0_def s1_def s1m_def keyMissing_def)
  show ?thesis
  proof (cases f)
    case KeyAbsent
    have "failing k (s1\<lparr>isConnecting := False\<rparr>)"
      using f1 by (simp add: failing_def)
    from failing_catch [OF this] show ?thesis
      using td by (simp add: failedAttempt_def KeyAbsent fire none)
  next
    case MicDenied
    from failing_catch [OF f1m] show ?thesis
      using td by (simp add: failedAttempt_def MicDenied fire mic)
  next
    case OpenRejected
    let ?s3 = "?s2\<lparr>rejected := insert (opens ?s2) (rejected ?s2),
                  pendingFrames := filter (\<lambda>p. fst p \<noteq> opens ?s2) (pendingFrames ?s2)\<rparr>"
    have "failing k ?s3"
      using f2 by (simp add: failing_def)
    from failing_catch [OF this] show ?thesis
      using td
      by (simp add: failedAttempt_def OpenRejected fire ok initSession_rejected_def Let_def)
  next
    case ChannelError
    let ?s3 = "addLog ''Link Collision Detected. Resetting Protocols...'' SYSTEM ?s2"
    have "failing k ?s3"
      using f2 by (simp add: failing_def addLog_keeps)
    moreover have "onerror ?s2 = handleReconnection ?s3"
      using f2 by (simp add: onerror_def failing_def)
    ultimately show ?thesis
      using td by (auto simp add: failedAttempt_def ChannelError fire ok)
  next
    case ChannelClose
    let ?s3 = "addLog ''Satellite Bridge Severed. Searching for path...'' SYSTEM ?s2"
    have "failing k ?s3"
      using f2 by (simp add: failing_def addLog_keeps)
    moreover have "onclose ?s2 = handleReconnection ?s3"
      using f2 by (simp add: onclose_def failing_def)
    ultimately show ?thesis
      using td by (auto simp add: failedAttempt_def ChannelClose fire ok)
  qed
qed

lemma failing_rearms:
  assumes "failing k s" and "k < 5"
  shows "armed (Suc k) (handleReconnection s)"
  using assms
  by (simp add: handleReconnection_schedules failing_def armed_def cleanup_keeps cleanup_resets)

lemma failing_locks:
  assumes "failing k s" and "\<not> k < 5"
  shows "status (handleReconnection s) = ERROR \<and> timers (handleReconnection s) = []
     \<and> reconnectAttempts (handleReconnection s) = 0
     \<and> \<not> isConnecting (handleReconnection s)"
  using assms
  by (simp add: handleReconnection_gives_up failing_def addLog_keeps cleanup_keeps
      cleanup_resets)

lemma armed_step: "armed k s \<Longrightarrow> k < 5 \<Longrightarrow> armed (Suc k) (failedAttempt f s)"
  using failedAttempt_reports failing_rearms by metis

lemma armed_last:
  assumes "armed 5 s"
  shows "status (failedAttempt f s) = ERROR \<and> timers (failedAttempt f s) = []
     \<and> reconnectAttempts (failedAttempt f s) = 0 \<and> \<not> isConnecting (failedAttempt f s)"
  using failedAttempt_reports [OF assms, of f] failing_locks [of 5] by fastforce

lemma armed_steps:
  "armed k s \<Longrightarrow> k + length fs \<le> 5 \<Longrightarrow> armed (k + length fs) (failedAttempts fs s)"
proof (induction fs arbitrary: k s)
  case Nil
  then show ?case by simp
next
  case (Cons f fs)
  from Cons.prems have "armed (Suc k) (failedAttempt f s)"
    by (simp add: armed_step)
  from Cons.IH [OF this] Cons.prems(2) show ?case
    by simp
qed

lemma failedAttempts_snoc:
  "failedAttempts (fs @ [f]) s = failedAttempt f (failedAttempts fs s)"
  by (induction fs arbitrary: s) simp_all

lemma armed_timer: "armed k s \<Longrightarrow> \<exists>t. timers s = [(t, backoffDelay k)]"
  by (auto simp: armed_def split: option.splits)

text \<open>The definitions a concrete run unfolds to.\<close>

lemmas run_defs = onClick_def toggleDisabled_def toggleSession_def initSession_def
  initSession_catch_def initSession_rejected_def announceAttempt_def keyMissing_def
  handleReconnection_def handleReconnection_resume_def cleanup_def addLog_def
  onclose_def onerror_def onopen_def reconnectTimerFired_def
  disconnect_def disconnect_begin_def disconnect_resume_def clearReconnectTimer_def
  backoffDelay_def RECONNECT_DELAY_BASE_def MAX_RECONNECT_ATTEMPTS_def initialApp_def Let_def

text \<open>
  C2, as stated, fails, in two ways. After a user start and four automatic attempts
  have failed, which are five failed connection attempts in a row, the status is
  \<open>RECONNECTING\<close> and a timer of 15000 ms is pending: a sixth attempt is scheduled.
  And where the channel reports each failure twice, the lockout is reached with a timer
  still pending; the status is \<open>ERROR\<close>, and when that timer fires a new attempt starts
  with no user action.
\<close>

theorem reconnection_ceiling_counterexample:
  "reconnectAttempts failedStartRun = 5
   \<and> status failedStartRun = RECONNECTING
   \<and> timers failedStartRun = [(5, 15000)]
   \<and> status doubleReportRun = ERROR
   \<and> timers doubleReportRun = [(5, 15000)]
   \<and> isConnecting (reconnectTimerFired 5 False (Some ''k'') True doubleReportRun)"
proof -
  have a: "reconnectAttempts failedStartRun = 5 \<and> status failedStartRun = RECONNECTING
      \<and> timers failedStartRun = [(5, 15000)]"
    by (simp add: failedStartRun_def run_defs)
  have b: "status doubleReportRun = ERROR \<and> timers doubleReportRun = [(5, 15000)]
      \<and> isConnecting (reconnectTimerFired 5 False (Some ''k'') True doubleReportRun)"
    by (simp add: doubleReportRun_def run_defs)
  from a b show ?thesis
    by simp
qed

text \<open>
  C2, amended. A failure or drop with the counter at 0 and no timer pending starts the
  reconnection loop. When the five automatic attempts that follow all fail, in whatever
  way, each failure reported to the reconnection handler once, the status is \<open>ERROR\<close>,
  no timer is pending, no attempt is in progress and the counter is back at 0: nothing
  further happens until the user starts a session. Before that, after \<open>k < 5\<close> failed
  automatic attempts, exactly one timer is pending, with the backoff delay of attempt
  \<open>k + 1\<close>.
\<close>

theorem reconnection_ceiling:
  assumes "length fs = 5" and "reconnectAttempts s = 0"
    and "\<not> isIntentionalDisconnect s" and "timers s = []"
  shows "status (failedAttempts fs (handleReconnection s)) = ERROR
     \<and> timers (failedAttempts fs (handleReconnection s)) = []
     \<and> reconnectAttempts (failedAttempts fs (handleReconnection s)) = 0
     \<and> \<not> isConnecting (failedAttempts fs (handleReconnection s))
     \<and> (\<forall>k<5. \<exists>t. timers (failedAttempts (take k fs) (handleReconnection s))
                      = [(t, backoffDelay (Suc k))])"
proof -
  have "failing 0 s"
    using assms by (simp add: failing_def)
  then have start: "armed 1 (handleReconnection s)"
    using failing_rearms [of 0 s] by simp
  have before: "armed (Suc k) (failedAttempts (take k fs) (handleReconnection s))"
    if "k < 5" for k
    using armed_steps [OF start, of "take k fs"] that assms(1) by simp
  from assms(1) obtain gs f where fs: "fs = gs @ [f]" and gs: "length gs = 4"
    by (cases fs rule: rev_cases) auto
  have "armed 5 (failedAttempts gs (handleReconnection s))"
    using armed_steps [OF start, of gs] gs by simp
  from armed_last [OF this, of f] have last:
    "status (failedAttempts fs (handleReconnection s)) = ERROR
     \<and> timers (failedAttempts fs (handleReconnection s)) = []
     \<and> reconnectAttempts (failedAttempts fs (handleReconnection s)) = 0
     \<and> \<not> isConnecting (failedAttempts fs (handleReconnection s))"
    by (simp add: fs failedAttempts_snoc)
  have "\<exists>t. timers (failedAttempts (take k fs) (handleReconnection s))
          = [(t, backoffDelay (Suc k))]"
    if "k < 5" for k
    using armed_timer [OF before [OF that]] .
  with last show ?thesis
    by blast
qed

theorem reconnection_ceiling_witness:
  "status (failedAttempts [KeyAbsent, MicDenied, OpenRejected, ChannelError, ChannelClose]
             (handleReconnection initialApp)) = ERROR
   \<and> timers (failedAttempts [KeyAbsent, MicDenied, OpenRejected, ChannelError, ChannelClose]
             (handleReconnection initialApp)) = []"
  using reconnection_ceiling
    [of "[KeyAbsent, MicDenied, OpenRejected, ChannelError, ChannelClose]" initialApp]
  by (simp add: initialApp_def)

subsection \<open>A missing credential\<close>

text \<open>
  C3, as stated, fails: with the credential absent, the first attempt after a user start
  leaves a reconnection timer of 3000 ms pending and the counter at 1.
\<close>

theorem missing_key_counterexample:
  "status (toggleSession None True initialApp) = ERROR
   \<and> reconnectAttempts (toggleSession None True initialApp) = 1
   \<and> timers (toggleSession None True initialApp) = [(1, 3000)]"
  by (simp add: run_defs)

lemma initSession_key_missing:
  assumes "keyMissing apiKey" and "\<not> isConnecting s"
  shows "initSession False apiKey mic s =
     handleReconnection
       (addLog ''Primary Link Failed. Check Local Array.'' SYSTEM
          ((announceAttempt (s\<lparr>isConnecting := True\<rparr>))
             \<lparr>isConnecting := False, status := ERROR\<rparr>))"
  using assms by (simp add: initSession_def Let_def initSession_catch_def)

text \<open>The reconnection handler calls neither \<open>getUserMedia\<close> nor \<open>ai.live.connect\<close>.\<close>

lemma handleReconnection_calls_nothing:
  "micRequests (handleReconnection s) = micRequests s"
  "opens (handleReconnection s) = opens s"
  by (simp_all add: handleReconnection_def handleReconnection_resume_def Let_def
      cleanup_keeps addLog_keeps)

text \<open>
  C3, amended. When a connection attempt runs with the credential absent, it aborts at
  once: neither \<open>getUserMedia\<close> nor \<open>ai.live.connect\<close> is called, and whether the
  microphone would have been granted makes no difference. The status becomes \<open>ERROR\<close>,
  and the failure then goes to the same reconnection handler as every other failure.
  Unless the disconnect is intentional, a reconnection is scheduled with the usual
  backoff while the counter is below 5, the counter being raised by one; with the
  counter at 5 nothing is scheduled and the counter returns to 0.
\<close>

theorem missing_key_enters_reconnection:
  assumes "keyMissing apiKey" and "\<not> isConnecting s"
  shows "status (initSession False apiKey mic s) = ERROR
     \<and> \<not> isConnecting (initSession False apiKey mic s)
     \<and> micRequests (initSession False apiKey mic s) = micRequests s
     \<and> opens (initSession False apiKey mic s) = opens s
     \<and> initSession False apiKey True s = initSession False apiKey False s
     \<and> timers (initSession False apiKey mic s) =
         (if \<not> isIntentionalDisconnect s \<and> reconnectAttempts s < 5
          then timers s @ [(nextTimer s, backoffDelay (reconnectAttempts s + 1))]
          else timers s)
     \<and> reconnectAttempts (initSession False apiKey mic s) =
         (if isIntentionalDisconnect s then reconnectAttempts s
          else if reconnectAttempts s < 5 then reconnectAttempts s + 1 else 0)"
proof -
  let ?s1 = "addLog ''Primary Link Failed. Check Local Array.'' SYSTEM
          ((announceAttempt (s\<lparr>isConnecting := True\<rparr>))
             \<lparr>isConnecting := False, status := ERROR\<rparr>)"
  have run: "initSession False apiKey m s = handleReconnection ?s1" for m
    using assms by (rule initSession_key_missing)
  have f: "status ?s1 = ERROR" "timers ?s1 = timers s" "nextTimer ?s1 = nextTimer s"
    "reconnectAttempts ?s1 = reconnectAttempts s"
    "isIntentionalDisconnect ?s1 = isIntentionalDisconnect s"
    "micRequests ?s1 = micRequests s" "opens ?s1 = opens s"
    by (simp_all add: addLog_keeps announceAttempt_keeps)
  have calls: "micRequests (handleReconnection ?s1) = micRequests s"
    "opens (handleReconnection ?s1) = opens s"
    using f by (simp_all add: handleReconnection_calls_nothing)
  have same: "initSession False apiKey True s = initSession False apiKey False s"
    by (simp add: run)
  have loop: "status (handleReconnection ?s1) = ERROR
     \<and> \<not> isConnecting (handleReconnection ?s1)
     \<and> timers (handleReconnection ?s1) =
         (if \<not> isIntentionalDisconnect s \<and> reconnectAttempts s < 5
          then timers s @ [(nextTimer s, backoffDelay (reconnectAttempts s + 1))]
          else timers s)
     \<and> reconnectAttempts (handleReconnection ?s1) =
         (if isIntentionalDisconnect s then reconnectAttempts s
          else if reconnectAttempts s < 5 then reconnectAttempts s + 1 else 0)"
  proof (cases "isIntentionalDisconnect s")
    case True
    then have "handleReconnection ?s1 = cleanup ?s1"
      using f by (simp add: handleReconnection_def handleReconnection_resume_def cleanup_keeps)
    then show ?thesis
      using True f by (simp add: cleanup_keeps cleanup_resets)
  next
    case False
    show ?thesis
    proof (cases "reconnectAttempts s < 5")
      case True
      from False True f show ?thesis
        by (simp add: handleReconnection_schedules cleanup_keeps cleanup_resets)
    next
      case False
      from \<open>\<not> isIntentionalDisconnect s\<close> False f show ?thesis
        by (simp add: handleReconnection_gives_up cleanup_keeps cleanup_resets addLog_keeps)
    qed
  qed
  show ?thesis
    using loop calls same by (simp add: run)
qed

theorem missing_key_enters_reconnection_witness:
  "status (initSession False None True initialApp) = ERROR
   \<and> micRequests (initSession False None True initialApp) = 0
   \<and> opens (initSession False None True initialApp) = 0
   \<and> timers (initSession False None True initialApp) = [(1, 3000)]
   \<and> reconnectAttempts (initSession False None True initialApp) = 1"
proof -
  have k: "keyMissing None"
    by (simp add: keyMissing_def)
  have c: "\<not> isConnecting initialApp"
    by (simp add: initialApp_def)
  from missing_key_enters_reconnection [OF k c, of True]
  have "status (initSession False None True initialApp) = ERROR"
    and "micRequests (initSession False None True initialApp) = micRequests initialApp"
    and "opens (initSession False None True initialApp) = opens initialApp"
    and "timers (initSession False None True initialApp) =
         (if \<not> isIntentionalDisconnect initialApp \<and> reconnectAttempts initialApp < 5
          then timers initialApp
               @ [(nextTimer initialApp, backoffDelay (reconnectAttempts initialApp + 1))]
          else timers initialApp)"
    and "reconnectAttempts (initSession False None True initialApp) =
         (if isIntentionalDisconnect initialApp then reconnectAttempts initialApp
          else if reconnectAttempts initialApp < 5 then reconnectAttempts initialApp + 1
          else 0)"
    by blast+
  then show ?thesis
    by (simp add: initialApp_def backoffDelay_def RECONNECT_DELAY_BASE_def)
qed

subsection \<open>User stop\<close>

lemma disconnect_begin_intent: "isIntentionalDisconnect (disconnect_begin s)"
  by (simp add: disconnect_begin_def cleanup_keeps clearReconnectTimer_def
      split: option.splits)

lemma disconnect_resume_keeps:
  "isIntentionalDisconnect (disconnect_resume s) = isIntentionalDisconnect s"
  "isConnecting (disconnect_resume s) = isConnecting s"
  "timers (disconnect_resume s) = timers s"
  by (simp_all add: disconnect_resume_def addLog_keeps)

lemma disconnect_resume_sets:
  "status (disconnect_resume s) = IDLE"
  "reconnectAttempts (disconnect_resume s) = 0"
  by (simp_all add: disconnect_resume_def addLog_keeps)

lemma disconnect_intent: "isIntentionalDisconnect (disconnect s)"
  by (simp add: disconnect_def disconnect_resume_keeps disconnect_begin_intent)

text \<open>The close and error callbacks are their part before the cool-down followed by the
  resumption of the reconnection handler.\<close>

lemma callbacks_split:
  "\<not> isIntentionalDisconnect s \<Longrightarrow> onclose s = handleReconnection_resume (onclose_begin s)"
  "\<not> isIntentionalDisconnect s \<Longrightarrow> onerror s = handleReconnection_resume (onerror_begin s)"
  by (simp_all add: onclose_def onerror_def onclose_begin_def onerror_begin_def
      handleReconnection_def)

lemma intent_blocks:
  "isIntentionalDisconnect s \<Longrightarrow> onclose s = s"
  "isIntentionalDisconnect s \<Longrightarrow> onerror s = s"
  "isIntentionalDisconnect s \<Longrightarrow> handleReconnection_resume s = s"
  by (simp_all add: onclose_def onerror_def handleReconnection_resume_def)

lemma intent_blocks_timer:
  assumes "isIntentionalDisconnect s"
  shows "status (reconnectTimerFired t c apiKey mic s) = status s"
    and "isConnecting (reconnectTimerFired t c apiKey mic s) = isConnecting s"
    and "set (timers (reconnectTimerFired t c apiKey mic s)) \<subseteq> set (timers s)"
  using assms by (auto simp add: reconnectTimerFired_def Let_def)

text \<open>
  C4. From every state, once the user stop has run, a channel close or error changes
  nothing: the status is \<open>IDLE\<close>, not \<open>RECONNECTING\<close>, also when the event falls into the
  cool-down inside the stop. With the intent flag set, a reconnection handler that was
  suspended resumes to nothing, and a timer that still fires starts no attempt and adds
  no timer.
\<close>

theorem stop_suppresses_reconnection:
  "onclose (disconnect s) = disconnect s
   \<and> onerror (disconnect s) = disconnect s
   \<and> disconnect_resume (onclose (disconnect_begin s)) = disconnect s
   \<and> disconnect_resume (onerror (disconnect_begin s)) = disconnect s
   \<and> status (onclose (disconnect s)) = IDLE
   \<and> status (onerror (disconnect s)) = IDLE
   \<and> status (disconnect s) \<noteq> RECONNECTING
   \<and> isIntentionalDisconnect (disconnect s)
   \<and> reconnectAttempts (disconnect s) = 0
   \<and> handleReconnection_resume (disconnect s) = disconnect s
   \<and> status (reconnectTimerFired t c apiKey mic (disconnect s)) = IDLE
   \<and> \<not> isConnecting (reconnectTimerFired t c apiKey mic (disconnect s))
   \<and> set (timers (reconnectTimerFired t c apiKey mic (disconnect s)))
       \<subseteq> set (timers (disconnect s))"
proof -
  have i: "isIntentionalDisconnect (disconnect s)"
    by (rule disconnect_intent)
  have b: "isIntentionalDisconnect (disconnect_begin s)"
    by (rule disconnect_begin_intent)
  have st: "status (disconnect s) = IDLE" "reconnectAttempts (disconnect s) = 0"
    by (simp_all add: disconnect_def disconnect_resume_sets)
  have c: "\<not> isConnecting (disconnect s)"
    by (simp add: disconnect_def disconnect_resume_keeps disconnect_begin_def cleanup_resets)
  show ?thesis
    using i st c intent_blocks_timer [OF i, of t c apiKey mic]
    by (simp add: intent_blocks [OF i] intent_blocks [OF b] disconnect_def [symmetric])
qed

subsection \<open>The handshake\<close>

lemma onopen_sets:
  "status (onopen a s) = IDLE"
  "isConnected (onopen a s)"
  "\<not> isConnecting (onopen a s)"
  "\<not> isIntentionalDisconnect (onopen a s)"
  "reconnectAttempts (onopen a s) = 0"
  "audioContext s \<Longrightarrow> scriptProcessor (onopen a s) = Some a"
  by (simp_all add: onopen_def Let_def addLog_def)

lemma onopen_keeps:
  "timers (onopen a s) = timers s"
  "nextTimer (onopen a s) = nextTimer s"
  "outbound (onopen a s) = outbound s"
  "pendingFrames (onopen a s) = pendingFrames s"
  "resolved (onopen a s) = resolved s"
  "rejected (onopen a s) = rejected s"
  by (simp_all add: onopen_def Let_def addLog_def)

text \<open>After a handshake, a drop of the channel is the first failure again.\<close>

lemma drop_after_handshake:
  "reconnectAttempts (onclose (onopen a s)) = 1"
  "timers (onclose (onopen a s)) = timers s @ [(nextTimer s, 3000)]"
proof -
  let ?s1 = "addLog ''Satellite Bridge Severed. Searching for path...'' SYSTEM (onopen a s)"
  have f: "\<not> isIntentionalDisconnect ?s1" "reconnectAttempts ?s1 = 0"
    "timers ?s1 = timers s" "nextTimer ?s1 = nextTimer s"
    by (simp_all add: addLog_keeps onopen_sets onopen_keeps)
  have run: "onclose (onopen a s) = handleReconnection ?s1"
    by (simp add: onclose_def onopen_sets)
  have d: "backoffDelay 1 = 3000"
    by (simp add: backoffDelay_def RECONNECT_DELAY_BASE_def)
  from f show "reconnectAttempts (onclose (onopen a s)) = 1"
    by (simp add: run handleReconnection_schedules)
  from f d show "timers (onclose (onopen a s)) = timers s @ [(nextTimer s, 3000)]"
    by (simp add: run handleReconnection_schedules cleanup_keeps)
qed

text \<open>A frame after the handshake: sent at once when the promise of the attempt has
  resolved, and otherwise kept until it resolves.\<close>

lemma frame_after_handshake:
  assumes "audioContext s"
  shows "a \<in> resolved s \<Longrightarrow>
           outbound (onaudioprocess pcmBlob (onopen a s)) = outbound s @ [pcmBlob]"
    and "a \<notin> resolved s \<Longrightarrow> a \<notin> rejected s \<Longrightarrow>
           outbound (onaudioprocess pcmBlob (onopen a s)) = outbound s
           \<and> outbound (initSession_resolved a (onaudioprocess pcmBlob (onopen a s)))
               = outbound s @ map snd (filter (\<lambda>p. fst p = a) (pendingFrames s)) @ [pcmBlob]"
  using assms
  by (simp_all add: onaudioprocess_def onopen_sets onopen_keeps initSession_resolved_def)

text \<open>
  C8, as stated, fails: after a user start and the handshake, the status is \<open>IDLE\<close>,
  not \<open>LISTENING\<close>.
\<close>

theorem handshake_counterexample:
  "status (onopen 1 (onClick (Some ''k'') True initialApp)) \<noteq> LISTENING"
  by (simp add: onopen_sets)

text \<open>
  C8, amended. When the handshake of an attempt succeeds (the capture context exists, as
  it does once an attempt has got as far as opening the channel), the status becomes
  \<open>IDLE\<close> with \<open>isConnected\<close> set, which is the connected, ready state, and not
  \<open>LISTENING\<close>. The attempt counter is reset to 0, so that a later drop is scheduled as
  attempt 1 with a delay of 3000 ms. The capture pipeline is started: the processor is
  wired to the attempt's channel, and every microphone frame is handed to the send of
  that channel, at once when the open promise has resolved, and as soon as it resolves
  when the frame comes before that.
\<close>

theorem handshake_effects:
  assumes "audioContext s"
  shows "status (onopen a s) = IDLE
     \<and> status (onopen a s) \<noteq> LISTENING
     \<and> isConnected (onopen a s)
     \<and> \<not> isConnecting (onopen a s)
     \<and> reconnectAttempts (onopen a s) = 0
     \<and> scriptProcessor (onopen a s) = Some a
     \<and> (a \<in> resolved s \<longrightarrow>
          outbound (onaudioprocess pcmBlob (onopen a s)) = outbound s @ [pcmBlob])
     \<and> (a \<notin> resolved s \<longrightarrow> a \<notin> rejected s \<longrightarrow>
          outbound (onaudioprocess pcmBlob (onopen a s)) = outbound s
          \<and> outbound (initSession_resolved a (onaudioprocess pcmBlob (onopen a s)))
              = outbound s @ map snd (filter (\<lambda>p. fst p = a) (pendingFrames s))
                @ [pcmBlob])
     \<and> reconnectAttempts (onclose (onopen a s)) = 1
     \<and> timers (onclose (onopen a s)) = timers s @ [(nextTimer s, 3000)]"
  using assms frame_after_handshake [OF assms, of a pcmBlob]
  by (simp add: onopen_sets drop_after_handshake)

theorem handshake_effects_witness:
  "status (onopen 1 (onClick (Some ''k'') True initialApp)) = IDLE
   \<and> isConnected (onopen 1 (onClick (Some ''k'') True initialApp))
   \<and> scriptProcessor (onopen 1 (onClick (Some ''k'') True initialApp)) = Some 1
   \<and> outbound (onaudioprocess ''f'' (onopen 1 (onClick (Some ''k'') True initialApp))) = []
   \<and> outbound (initSession_resolved 1
        (onaudioprocess ''f'' (onopen 1 (onClick (Some ''k'') True initialApp)))) = [''f'']"
proof -
  have s: "audioContext (onClick (Some ''k'') True initialApp)"
    "resolved (onClick (Some ''k'') True initialApp) = {}"
    "rejected (onClick (Some ''k'') True initialApp) = {}"
    "pendingFrames (onClick (Some ''k'') True initialApp) = []"
    "outbound (onClick (Some ''k'') True initialApp) = []"
    by (simp_all add: run_defs)
  from handshake_effects [OF s(1), of 1 "''f''"] s show ?thesis
    by simp
qed

subsection \<open>A handshake after a stop\<close>

lemma disconnect_keeps_context: "audioContext (disconnect s) = audioContext s"
  by (simp add: disconnect_def disconnect_resume_def disconnect_begin_def addLog_def
      cleanup_def clearReconnectTimer_def split: option.splits)

text \<open>
  C9, as stated, fails, on a run made of clicks, channel reports and timers only. At
  the end of \<open>twoOpensRun\<close> the session is connected, the button is enabled and attempt
  3 is in flight. A click is then the user stop, which sets the intent flag. The
  handshake of attempt 3 completes after that: the session is connected again and the
  intent flag is cleared.
\<close>

theorem late_open_counterexample:
  "\<not> toggleDisabled twoOpensRun
   \<and> opens twoOpensRun = 3
   \<and> 3 \<notin> resolved twoOpensRun \<union> rejected twoOpensRun
   \<and> onClick (Some ''k'') True twoOpensRun = disconnect twoOpensRun
   \<and> isIntentionalDisconnect (onClick (Some ''k'') True twoOpensRun)
   \<and> \<not> isConnected (onClick (Some ''k'') True twoOpensRun)
   \<and> isConnected (onopen 3 (onClick (Some ''k'') True twoOpensRun))
   \<and> \<not> isIntentionalDisconnect (onopen 3 (onClick (Some ''k'') True twoOpensRun))"
proof -
  have r: "isConnected twoOpensRun \<and> \<not> isConnecting twoOpensRun
      \<and> opens twoOpensRun = 3 \<and> resolved twoOpensRun = {} \<and> rejected twoOpensRun = {1}"
    by (simp add: twoOpensRun_def run_defs)
  then have click: "onClick (Some ''k'') True twoOpensRun = disconnect twoOpensRun"
    by (simp add: onClick_def toggleDisabled_def toggleSession_def)
  have off: "\<not> isConnected (disconnect twoOpensRun)"
    by (simp add: disconnect_def disconnect_resume_def disconnect_begin_def addLog_keeps
        cleanup_resets)
  from r show ?thesis
    unfolding click
    by (simp add: toggleDisabled_def disconnect_intent off onopen_sets)
qed

text \<open>
  C9, amended. The settlement of an open is not checked against the connection intent:
  a handshake that completes after a user stop takes effect as at any other time. It
  sets \<open>isConnected\<close>, clears the intent flag and the connecting flag, sets the status to
  \<open>IDLE\<close> and wires the capture pipeline, and a later close of the channel starts the
  reconnection loop.
\<close>

theorem late_open_takes_effect:
  assumes "audioContext s"
  shows "isIntentionalDisconnect (disconnect s)
     \<and> isConnected (onopen a (disconnect s))
     \<and> \<not> isIntentionalDisconnect (onopen a (disconnect s))
     \<and> \<not> isConnecting (onopen a (disconnect s))
     \<and> scriptProcessor (onopen a (disconnect s)) = Some a
     \<and> status (onopen a (disconnect s)) = IDLE
     \<and> reconnectAttempts (onclose (onopen a (disconnect s))) = 1
     \<and> timers (onclose (onopen a (disconnect s)))
         = timers (disconnect s) @ [(nextTimer (disconnect s), 3000)]"
proof -
  have "audioContext (disconnect s)"
    using assms by (simp add: disconnect_keeps_context)
  then have wired: "scriptProcessor (onopen a (disconnect s)) = Some a"
    by (simp add: onopen_sets)
  show ?thesis
    using wired by (simp add: onopen_sets drop_after_handshake disconnect_intent)
qed

theorem late_open_takes_effect_witness:
  "isIntentionalDisconnect (disconnect twoOpensRun)
   \<and> isConnected (onopen 3 (disconnect twoOpensRun))
   \<and> \<not> isIntentionalDisconnect (onopen 3 (disconnect twoOpensRun))
   \<and> scriptProcessor (onopen 3 (disconnect twoOpensRun)) = Some 3"
proof -
  have "audioContext twoOpensRun"
    by (simp add: twoOpensRun_def run_defs)
  from late_open_takes_effect [OF this, of 3] show ?thesis
    by simp
qed

subsection \<open>Playback scheduling\<close>


lemma noOverlap_snoc:
  "noOverlap c (es @ [e]) = (noOverlap c es \<and> lastEnd c es \<le> fst (snd e))"
  by (induction es arbitrary: c) auto

lemma lastEnd_snoc: "lastEnd c (es @ [e]) = fst (snd e) + snd (snd e)"
  by (induction es arbitrary: c) auto

lemma continues_refl: "continues s s"
  by (simp add: continues_def scheduledSince_def)

lemma continues_same:
  assumes "continues s s'" and "timeline s'' = timeline s'" and "nextStartTime s' \<le> nextStartTime s''"
  shows "continues s s''"
  using assms by (simp add: continues_def scheduledSince_def)

lemma continues_advanceCursor:
  assumes "continues s s'"
  shows "continues s (advanceCursor now s')"
  by (rule continues_same [OF assms]) (simp_all add: advanceCursor_def)

lemma continues_startSource:
  assumes "continues s s'" and "0 \<le> d"
  shows "continues s (startSource d s')"
proof -
  from assms(1) have len: "length (timeline s) \<le> length (timeline s')"
    by (simp add: continues_def)
  then have new: "scheduledSince s (startSource d s')
      = scheduledSince s s' @ [(nextNode s', nextStartTime s', d)]"
    by (simp add: scheduledSince_def startSource_def)
  from assms len show ?thesis
    unfolding continues_def new noOverlap_snoc lastEnd_snoc
    by (simp add: startSource_def)
qed

lemma continues_audioPart:
  assumes "continues s s'" and "\<forall>b d. dur b = Some d \<longrightarrow> 0 \<le> d"
  shows "continues s (outcome (audioPart dur now b s'))"
  using assms
  by (auto simp add: audioPart_def outcome_def continues_advanceCursor continues_startSource
      split: option.splits)

lemma continues_handlePart:
  assumes "continues s s'" and "\<forall>b d. dur b = Some d \<longrightarrow> 0 \<le> d"
  shows "continues s (outcome (handlePart dur now p s'))"
proof (cases "inlineData p")
  case None
  with assms show ?thesis by (simp add: handlePart_def outcome_def)
next
  case (Some i)
  show ?thesis
  proof (cases "take 6 (mimeType i) = ''image/''")
    case True
    have "continues s (addLog ''Initiating Holodesk Projection Sequence...'' JARVIS
            (s'\<lparr>currentHologram := Some (''data:'' @ mimeType i @ '';base64,'' @ data i)\<rparr>))"
      by (rule continues_same [OF assms(1)]) (simp_all add: addLog_keeps)
    with Some True show ?thesis
      by (simp add: handlePart_def outcome_def)
  next
    case False
    with Some assms continues_audioPart [OF assms, of now "data i"] show ?thesis
      by (simp add: handlePart_def) (simp add: outcome_def)
  qed
qed

lemma continues_processParts:
  assumes "continues s s'" and "\<forall>b d. dur b = Some d \<longrightarrow> 0 \<le> d"
  shows "continues s (outcome (processParts dur now ps s'))"
  using assms(1)
proof (induction ps arbitrary: s')
  case Nil
  then show ?case by (simp add: outcome_def)
next
  case (Cons p ps)
  from continues_handlePart [OF Cons.prems assms(2), of now p]
  have h: "continues s (outcome (handlePart dur now p s'))" .
  show ?case
  proof (cases "handlePart dur now p s'")
    case (Inl a)
    with h show ?thesis by (simp add: outcome_def)
  next
    case (Inr b)
    with h have "continues s b" by (simp add: outcome_def)
    from Cons.IH [OF this] Inr show ?thesis by simp
  qed
qed

lemma transcript_steps_keep:
  "timeline (transcriptionStep m s) = timeline s"
  "nextStartTime (transcriptionStep m s) = nextStartTime s"
  "timeline (turnCompleteStep m s) = timeline s"
  "nextStartTime (turnCompleteStep m s) = nextStartTime s"
  by (simp_all add: transcriptionStep_def turnCompleteStep_def turnCompleteBlock_def Let_def
      addLog_keeps split: option.splits)

lemma continues_onmessage:
  assumes "continues s s'" and "\<forall>b d. dur b = Some d \<longrightarrow> 0 \<le> d" and "\<not> interrupted m"
  shows "continues s (onmessage dur now m s')"
proof -
  have "continues s (turnCompleteStep m (transcriptionStep m s'))"
    by (rule continues_same [OF assms(1)]) (simp_all add: transcript_steps_keep)
  from continues_processParts [OF this assms(2), of now "parts m"] assms(3)
  show ?thesis
    by (simp add: onmessage_def outcome_def split: sum.splits)
qed

lemma continues_onmessages:
  assumes "\<forall>b d. dur b = Some d \<longrightarrow> 0 \<le> d" and "\<forall>e\<in>set es. \<not> interrupted (snd e)"
    and "continues s s'"
  shows "continues s (onmessages dur es s')"
  using assms(2,3)
proof (induction es arbitrary: s')
  case Nil
  then show ?case by simp
next
  case (Cons e es)
  from Cons.prems have "continues s (onmessage dur (fst e) (snd e) s')"
    by (simp add: continues_onmessage assms(1))
  from Cons.IH [OF _ this] Cons.prems(1) show ?case by simp
qed

lemma onmessage_audioChunk:
  assumes "outputAudioContext s" and "dur b = Some d"
  shows "onmessage dur now (audioChunk b) s = startSource d (advanceCursor now s)"
  using assms
  by (simp add: onmessage_def audioChunk_def emptyMessage_def transcriptionStep_def
      turnCompleteStep_def handlePart_def audioPart_def advanceCursor_def)

lemma playback_keeps_context:
  "outputAudioContext (startSource d s) = outputAudioContext s"
  "outputAudioContext (advanceCursor now s) = outputAudioContext s"
  by (simp_all add: startSource_def advanceCursor_def)

lemma two_chunks:
  assumes "outputAudioContext s" and "dur b1 = Some d1" and "dur b2 = Some d2"
  shows "onmessages dur [(now1, audioChunk b1), (now2, audioChunk b2)] s
     = startSource d2 (advanceCursor now2 (startSource d1 (advanceCursor now1 s)))"
  using assms by (simp add: onmessage_audioChunk playback_keeps_context)

text \<open>
  C5, as stated, fails in its last clause: two chunks of one second each, the first
  arriving at output time 0 and the second at output time 5. The first ends at 1, the
  second starts at 5: the gap between them is 4, not 0.
\<close>

theorem playback_gap_counterexample:
  "gaps 0 (timeline (onmessages oneSecond [(0, audioChunk ''a''), (5, audioChunk ''b'')]
                       (initialApp\<lparr>outputAudioContext := True\<rparr>))) = [0, 4]"
proof -
  have "onmessages oneSecond [(0, audioChunk ''a''), (5, audioChunk ''b'')]
          (initialApp\<lparr>outputAudioContext := True\<rparr>)
      = startSource 1 (advanceCursor 5 (startSource 1 (advanceCursor 0
          (initialApp\<lparr>outputAudioContext := True\<rparr>))))"
    by (rule two_chunks) (simp_all add: oneSecond_def)
  then show ?thesis
    by (simp add: startSource_def advanceCursor_def initialApp_def)
qed

text \<open>
  C5, amended. Over every run of inbound messages without an interruption, with decoded
  durations that are not negative: the timeline is only extended at its end (arrival
  order), every chunk scheduled in the run starts no earlier than the end of the chunk
  before it (no overlap), and the cursor does not decrease. Each chunk starts at the
  maximum of the cursor and the current output time, and the cursor is then that start
  plus the chunk's duration, as spelled out for two consecutive chunks. The gap before a
  chunk is therefore \<open>max 0 (now - cursor)\<close>: 0 when the chunk arrives before the
  previous one has ended, and the lateness of its arrival otherwise.
\<close>

theorem playback_cursor_schedule:
  assumes "\<forall>e\<in>set es. \<not> interrupted (snd e)" and "\<forall>b d. dur b = Some d \<longrightarrow> 0 \<le> d"
  shows "take (length (timeline s)) (timeline (onmessages dur es s)) = timeline s
     \<and> noOverlap (nextStartTime s) (scheduledSince s (onmessages dur es s))
     \<and> nextStartTime s \<le> nextStartTime (onmessages dur es s)
     \<and> (outputAudioContext s \<longrightarrow> dur b1 = Some d1 \<longrightarrow> dur b2 = Some d2 \<longrightarrow>
          scheduledSince s (onmessages dur [(now1, audioChunk b1), (now2, audioChunk b2)] s)
            = [(nextNode s, max (nextStartTime s) now1, d1),
               (nextNode s + 1, max (max (nextStartTime s) now1 + d1) now2, d2)]
        \<and> nextStartTime (onmessages dur [(now1, audioChunk b1), (now2, audioChunk b2)] s)
            = max (max (nextStartTime s) now1 + d1) now2 + d2
        \<and> gaps (nextStartTime s)
             (scheduledSince s (onmessages dur [(now1, audioChunk b1), (now2, audioChunk b2)] s))
            = [max 0 (now1 - nextStartTime s),
               max 0 (now2 - (max (nextStartTime s) now1 + d1))])"
proof -
  have "continues s (onmessages dur es s)"
    using assms(2,1) continues_refl by (rule continues_onmessages)
  then have run: "take (length (timeline s)) (timeline (onmessages dur es s)) = timeline s
     \<and> noOverlap (nextStartTime s) (scheduledSince s (onmessages dur es s))
     \<and> nextStartTime s \<le> nextStartTime (onmessages dur es s)"
    by (simp add: continues_def)
  have pair: "scheduledSince s (onmessages dur [(now1, audioChunk b1), (now2, audioChunk b2)] s)
            = [(nextNode s, max (nextStartTime s) now1, d1),
               (nextNode s + 1, max (max (nextStartTime s) now1 + d1) now2, d2)]
        \<and> nextStartTime (onmessages dur [(now1, audioChunk b1), (now2, audioChunk b2)] s)
            = max (max (nextStartTime s) now1 + d1) now2 + d2"
    if "outputAudioContext s" "dur b1 = Some d1" "dur b2 = Some d2"
    unfolding two_chunks [OF that]
    by (simp add: scheduledSince_def startSource_def advanceCursor_def)
  have g: "gaps c [(n1, max c now1, d1), (n2, max (max c now1 + d1) now2, d2)]
      = [max 0 (now1 - c), max 0 (now2 - (max c now1 + d1))]" for c n1 n2
    by (simp add: max_def)
  show ?thesis
    using run pair g by simp
qed

theorem playback_cursor_schedule_witness:
  "noOverlap 0 (timeline (onmessages oneSecond [(0, audioChunk ''a''), (5, audioChunk ''b'')]
                       (initialApp\<lparr>outputAudioContext := True\<rparr>)))
   \<and> timeline (onmessages oneSecond [(0, audioChunk ''a''), (5, audioChunk ''b'')]
                       (initialApp\<lparr>outputAudioContext := True\<rparr>)) = [(0, 0, 1), (1, 5, 1)]"
  using playback_cursor_schedule [of "[(0, audioChunk ''a''), (5, audioChunk ''b'')]" oneSecond
      "initialApp\<lparr>outputAudioContext := True\<rparr>" "''a''" 1 "''b''" 1 0 5]
  by (simp add: oneSecond_def audioChunk_def emptyMessage_def initialApp_def scheduledSince_def)

subsection \<open>Interruption\<close>

lemma handlePart_sources:
  "sources s \<subseteq> sources (outcome (handlePart dur now p s))"
  by (auto simp add: handlePart_def audioPart_def outcome_def addLog_keeps startSource_def
      advanceCursor_def split: option.splits)

lemma processParts_sources:
  "sources s \<subseteq> sources (outcome (processParts dur now ps s))"
proof (induction ps arbitrary: s)
  case Nil
  then show ?case by (simp add: outcome_def)
next
  case (Cons p ps)
  have h: "sources s \<subseteq> sources (outcome (handlePart dur now p s))"
    by (rule handlePart_sources)
  show ?case
  proof (cases "handlePart dur now p s")
    case (Inl a)
    with h show ?thesis by (simp add: outcome_def)
  next
    case (Inr b)
    with h have "sources s \<subseteq> sources b" by (simp add: outcome_def)
    with Cons.IH [of b] Inr show ?thesis by auto
  qed
qed

lemma transcript_steps_keep_sources:
  "sources (turnCompleteStep m (transcriptionStep m s)) = sources s"
  by (simp add: transcriptionStep_def turnCompleteStep_def turnCompleteBlock_def Let_def
      addLog_keeps split: option.splits)

lemma interruptionBlock_effects:
  "sources (interruptionBlock s) = {}"
  "stopped (interruptionBlock s) = stopped s \<union> sources s"
  "nextStartTime (interruptionBlock s) = 0"
  "nextNode (interruptionBlock s) = nextNode s"
  "outputAudioContext (interruptionBlock s) = outputAudioContext s"
  "timeline (interruptionBlock s) = timeline s"
  by (simp_all add: interruptionBlock_def addLog_keeps)

text \<open>
  C6. When a message carries the interruption signal and its handler reaches that
  signal, every source node active at that point (those of the message's own parts
  included) has been stopped, the set of active sources is empty and the cursor is 0.
  The next chunk is then scheduled at \<open>max 0 now\<close>, which is at or after the current
  output time \<open>now\<close>, whatever the cursor was before the interruption.
\<close>

theorem interruption_reset:
  assumes "interrupted m"
    and "processParts dur now (parts m) (turnCompleteStep m (transcriptionStep m s)) = Inr s1"
  shows "sources (onmessage dur now m s) = {}
     \<and> sources s1 \<subseteq> stopped (onmessage dur now m s)
     \<and> sources s \<subseteq> stopped (onmessage dur now m s)
     \<and> nextStartTime (onmessage dur now m s) = 0
     \<and> (outputAudioContext s1 \<longrightarrow> dur b = Some d \<longrightarrow>
          scheduledSince (onmessage dur now m s)
              (onmessage dur now' (audioChunk b) (onmessage dur now m s))
            = [(nextNode s1, max 0 now', d)]
        \<and> now' \<le> max 0 now')"
proof -
  have run: "onmessage dur now m s = interruptionBlock s1"
    using assms by (simp add: onmessage_def)
  have "sources (turnCompleteStep m (transcriptionStep m s)) \<subseteq> sources s1"
    using processParts_sources [of "turnCompleteStep m (transcriptionStep m s)" dur now "parts m"]
      assms(2) by (simp add: outcome_def)
  then have grow: "sources s \<subseteq> sources s1"
    by (simp add: transcript_steps_keep_sources)
  have next_chunk: "scheduledSince (interruptionBlock s1)
              (onmessage dur now' (audioChunk b) (interruptionBlock s1))
            = [(nextNode s1, max 0 now', d)]"
    if "outputAudioContext s1" "dur b = Some d"
  proof -
    from that have "onmessage dur now' (audioChunk b) (interruptionBlock s1)
        = startSource d (advanceCursor now' (interruptionBlock s1))"
      by (simp add: onmessage_audioChunk interruptionBlock_effects)
    then show ?thesis
      by (simp add: scheduledSince_def startSource_def advanceCursor_def
          interruptionBlock_effects)
  qed
  show ?thesis
    using grow next_chunk by (auto simp add: run interruptionBlock_effects)
qed

theorem interruption_reset_witness:
  "sources (onmessage oneSecond 3 ((audioChunk ''a'')\<lparr>interrupted := True\<rparr>)
      (initialApp\<lparr>outputAudioContext := True, nextStartTime := 7, sources := {4},
         nextNode := 5\<rparr>)) = {}
   \<and> {4, 5} \<subseteq> stopped (onmessage oneSecond 3 ((audioChunk ''a'')\<lparr>interrupted := True\<rparr>)
      (initialApp\<lparr>outputAudioContext := True, nextStartTime := 7, sources := {4},
         nextNode := 5\<rparr>))
   \<and> nextStartTime (onmessage oneSecond 3 ((audioChunk ''a'')\<lparr>interrupted := True\<rparr>)
      (initialApp\<lparr>outputAudioContext := True, nextStartTime := 7, sources := {4},
         nextNode := 5\<rparr>)) = 0"
proof -
  let ?m = "(audioChunk ''a'')\<lparr>interrupted := True\<rparr>"
  let ?s = "initialApp\<lparr>outputAudioContext := True, nextStartTime := 7, sources := {4},
         nextNode := 5\<rparr>"
  have i: "interrupted ?m"
    by simp
  have p: "processParts oneSecond 3 (parts ?m) (turnCompleteStep ?m (transcriptionStep ?m ?s))
      = Inr (startSource 1 (advanceCursor 3 ?s))"
    by (simp add: audioChunk_def emptyMessage_def transcriptionStep_def turnCompleteStep_def
        handlePart_def audioPart_def oneSecond_def)
  have "sources (startSource 1 (advanceCursor 3 ?s)) = {4, 5}"
    by (auto simp add: startSource_def advanceCursor_def)
  with interruption_reset [OF i p] show ?thesis
    by simp
qed

subsection \<open>Transcript assembly\<close>

lemma onmessage_fragment:
  "onmessage dur now (fragment ty txt) s = transcriptionStep (fragment ty txt) s"
  by (cases ty) (simp_all add: onmessage_def fragment_def emptyMessage_def turnCompleteStep_def)

lemma fragment_buffers:
  "bufInput (transcriptionStep (fragment ty txt) s)
      = bufInput s @ (if ty = Tinput then txt else [])"
  "bufOutput (transcriptionStep (fragment ty txt) s)
      = bufOutput s @ (if ty = Toutput then txt else [])"
  "logs (transcriptionStep (fragment ty txt) s) = logs s"
  "transcriptions (transcriptionStep (fragment ty txt) s) = transcriptions s"
  by (cases ty; simp add: transcriptionStep_def fragment_def emptyMessage_def)+

lemma fragments_buffers:
  "bufInput (onmessages dur (fragmentsAt now frs) s) = bufInput s @ joined Tinput frs
   \<and> bufOutput (onmessages dur (fragmentsAt now frs) s) = bufOutput s @ joined Toutput frs
   \<and> logs (onmessages dur (fragmentsAt now frs) s) = logs s
   \<and> transcriptions (onmessages dur (fragmentsAt now frs) s) = transcriptions s"
proof (induction frs arbitrary: s)
  case Nil
  then show ?case by (simp add: fragmentsAt_def joined_def)
next
  case (Cons p frs)
  have unfold: "onmessages dur (fragmentsAt now (p # frs)) s
      = onmessages dur (fragmentsAt now frs) (transcriptionStep (fragment (fst p) (snd p)) s)"
    by (simp add: fragmentsAt_def onmessage_fragment)
  have j: "joined ty (p # frs) = (if fst p = ty then snd p else []) @ joined ty frs" for ty
    by (simp add: joined_def)
  show ?case
    unfolding unfold using Cons.IH [of "transcriptionStep (fragment (fst p) (snd p)) s"]
    by (auto simp add: fragment_buffers j)
qed

lemma onmessage_turnCompleteSignal:
  "onmessage dur now turnCompleteSignal s = turnCompleteBlock s"
  by (simp add: onmessage_def turnCompleteSignal_def emptyMessage_def turnCompleteStep_def
      transcriptionStep_def)

lemma take30_twice: "take 30 (a # take 30 (b # xs)) = take 30 (a # b # xs)"
  by (simp add: take_Cons')

lemma turnCompleteBlock_effects:
  "logs (turnCompleteBlock s) =
     (if turnEntries (bufInput s) (bufOutput s) = [] then logs s
      else take 30 (turnEntries (bufInput s) (bufOutput s) @ logs s))"
  "transcriptions (turnCompleteBlock s)
     = sliceLast5 (transcriptions s @ [turnItem (bufInput s) (bufOutput s)])"
  "bufInput (turnCompleteBlock s) = []"
  "bufOutput (turnCompleteBlock s) = []"
  by (simp_all add: turnCompleteBlock_def Let_def turnEntries_def turnItem_def addLog_def
      take30_twice)

text \<open>
  C7. Starting with both buffers empty, after any run of input and output fragments the
  input buffer holds the input fragments joined in arrival order and the output buffer
  the output fragments, and nothing has been logged. The turn-complete signal then puts
  in front of the log (capped at 30) one entry tagged \<open>USER\<close> with the joined input if
  that is not empty and one entry tagged \<open>JARVIS\<close> with the joined output if that is not
  empty, and nothing when both are empty; the item it files has type output if there is
  any output text and input otherwise; both buffers are empty afterwards. For the
  fragments "Hello" and " there" with no output, the log of a fresh session is the single
  entry (\<open>USER\<close>, "Hello there").
\<close>

theorem turn_assembly:
  assumes "bufInput s = []" and "bufOutput s = []"
  shows "bufInput (onmessages dur (fragmentsAt now frs) s) = joined Tinput frs
     \<and> bufOutput (onmessages dur (fragmentsAt now frs) s) = joined Toutput frs
     \<and> logs (onmessages dur (fragmentsAt now frs) s) = logs s
     \<and> logs (onmessage dur now' turnCompleteSignal (onmessages dur (fragmentsAt now frs) s))
         = (if turnEntries (joined Tinput frs) (joined Toutput frs) = [] then logs s
            else take 30 (turnEntries (joined Tinput frs) (joined Toutput frs) @ logs s))
     \<and> turnEntries (joined Tinput frs) (joined Toutput frs)
         = (if joined Toutput frs \<noteq> []
            then [\<lparr>message = joined Toutput frs, source = JARVIS\<rparr>] else [])
           @ (if joined Tinput frs \<noteq> []
              then [\<lparr>message = joined Tinput frs, source = USER\<rparr>] else [])
     \<and> transcriptions
           (onmessage dur now' turnCompleteSignal (onmessages dur (fragmentsAt now frs) s))
         = sliceLast5 (transcriptions s @
             [\<lparr>itemText = (if joined Toutput frs \<noteq> [] then joined Toutput frs
                            else joined Tinput frs),
               itemType = (if joined Toutput frs \<noteq> [] then Toutput else Tinput)\<rparr>])
     \<and> bufInput (onmessage dur now' turnCompleteSignal
           (onmessages dur (fragmentsAt now frs) s)) = []
     \<and> bufOutput (onmessage dur now' turnCompleteSignal
           (onmessages dur (fragmentsAt now frs) s)) = []"
  using assms fragments_buffers [of dur now frs s]
  by (simp add: onmessage_turnCompleteSignal turnCompleteBlock_effects)
    (simp add: turnEntries_def turnItem_def)

theorem turn_assembly_witness:
  "logs (onmessage oneSecond 0 turnCompleteSignal
      (onmessages oneSecond (fragmentsAt 0 [(Tinput, ''Hello''), (Tinput, '' there'')])
         initialApp))
     = [\<lparr>message = ''Hello there'', source = USER\<rparr>]
   \<and> bufInput (onmessage oneSecond 0 turnCompleteSignal
      (onmessages oneSecond (fragmentsAt 0 [(Tinput, ''Hello''), (Tinput, '' there'')])
         initialApp)) = []
   \<and> bufOutput (onmessage oneSecond 0 turnCompleteSignal
      (onmessages oneSecond (fragmentsAt 0 [(Tinput, ''Hello''), (Tinput, '' there'')])
         initialApp)) = []"
  using turn_assembly [of initialApp oneSecond 0 "[(Tinput, ''Hello''), (Tinput, '' there'')]" 0]
  by (simp add: initialApp_def joined_def turnEntries_def)

subsection \<open>The transcription history\<close>

lemma handlePart_transcriptions:
  "transcriptions (outcome (handlePart dur now p s)) = transcriptions s"
  by (auto simp add: handlePart_def audioPart_def outcome_def addLog_keeps startSource_def
      advanceCursor_def split: option.splits)

lemma processParts_transcriptions:
  "transcriptions (outcome (processParts dur now ps s)) = transcriptions s"
proof (induction ps arbitrary: s)
  case Nil
  then show ?case by (simp add: outcome_def)
next
  case (Cons p ps)
  have h: "transcriptions (outcome (handlePart dur now p s)) = transcriptions s"
    by (rule handlePart_transcriptions)
  show ?case
  proof (cases "handlePart dur now p s")
    case (Inl a)
    with h show ?thesis by (simp add: outcome_def)
  next
    case (Inr b)
    with h have "transcriptions b = transcriptions s" by (simp add: outcome_def)
    with Cons.IH [of b] Inr show ?thesis by simp
  qed
qed

lemma onmessage_transcriptions:
  "transcriptions (onmessage dur now m s)
     = transcriptions (turnCompleteStep m (transcriptionStep m s))"
  using processParts_transcriptions [of dur now "parts m" "turnCompleteStep m (transcriptionStep m s)"]
  by (simp add: onmessage_def outcome_def interruptionBlock_def addLog_keeps split: sum.splits)

lemma transcriptionStep_transcriptions:
  "transcriptions (transcriptionStep m s) = transcriptions s"
  by (simp add: transcriptionStep_def split: option.splits)

lemma sliceLast5_snoc:
  "sliceLast5 (xs @ [x]) = drop (length xs - 4) xs @ [x]"
  by (simp add: sliceLast5_def)

lemma window_length: "length (drop (length xs - 4) xs @ [x]) = min 5 (length xs + 1)"
  by (cases "length xs \<le> 4") simp_all

lemma onmessage_window:
  assumes "length (transcriptions s) \<le> 5"
  shows "length (transcriptions (onmessage dur now m s)) \<le> 5"
proof (cases "turnComplete m")
  case True
  then have "transcriptions (onmessage dur now m s)
       = drop (length (transcriptions s) - 4) (transcriptions s)
         @ [turnItem (bufInput (transcriptionStep m s)) (bufOutput (transcriptionStep m s))]"
    by (simp add: onmessage_transcriptions turnCompleteStep_def turnCompleteBlock_effects
      transcriptionStep_transcriptions sliceLast5_snoc)
  then show ?thesis
    by (simp only: window_length)
next
  case False
  with assms show ?thesis
    by (simp add: onmessage_transcriptions turnCompleteStep_def
        transcriptionStep_transcriptions)
qed

lemma onmessages_window: "length (transcriptions s) \<le> 5 \<Longrightarrow> length (transcriptions (onmessages dur es s)) \<le> 5"
  by (induction es arbitrary: s) (simp_all add: onmessage_window)

text \<open>
  C10. The list of finalized transcriptions is changed by a turn-complete signal only. A
  message with the signal appends exactly one item and keeps, of the items before it,
  the last four: the list is then the last five of the old list with the new item
  appended, and has \<open>min 5 (n + 1)\<close> items. So once the list has at most five items it
  never has more, whatever messages arrive.
\<close>

theorem transcription_history_window:
  assumes "turnComplete m"
  shows "transcriptions (onmessage dur now m s)
       = drop (length (transcriptions s) - 4) (transcriptions s)
         @ [turnItem (bufInput (transcriptionStep m s)) (bufOutput (transcriptionStep m s))]
     \<and> transcriptions (onmessage dur now m s)
       = sliceLast5 (transcriptions s
         @ [turnItem (bufInput (transcriptionStep m s)) (bufOutput (transcriptionStep m s))])
     \<and> length (transcriptions (onmessage dur now m s)) = min 5 (length (transcriptions s) + 1)
     \<and> (\<not> turnComplete m' \<longrightarrow>
          transcriptions (onmessage dur now m' s) = transcriptions s)
     \<and> (length (transcriptions s) \<le> 5 \<longrightarrow>
          length (transcriptions (onmessages dur es s)) \<le> 5)"
proof -
  let ?item = "turnItem (bufInput (transcriptionStep m s)) (bufOutput (transcriptionStep m s))"
  have a: "transcriptions (onmessage dur now m s)
       = drop (length (transcriptions s) - 4) (transcriptions s) @ [?item]"
    using assms
    by (simp add: onmessage_transcriptions turnCompleteStep_def turnCompleteBlock_effects
        transcriptionStep_transcriptions sliceLast5_snoc)
  have b: "length (transcriptions (onmessage dur now m s))
       = min 5 (length (transcriptions s) + 1)"
    by (simp only: a window_length)
  have c: "transcriptions (onmessage dur now m' s) = transcriptions s" if "\<not> turnComplete m'"
    using that
    by (simp add: onmessage_transcriptions turnCompleteStep_def
        transcriptionStep_transcriptions)
  show ?thesis
    using a b c onmessages_window [of s dur es] by (simp add: sliceLast5_snoc)
qed

theorem transcription_history_window_witness:
  "map itemText (transcriptions (onmessage oneSecond 0 ((fragment Toutput ''f'')\<lparr>turnComplete := True\<rparr>)
      (initialApp\<lparr>transcriptions := map (\<lambda>t. \<lparr>itemText = t, itemType = Tinput\<rparr>)
          [''a'', ''b'', ''c'', ''d'', ''e'']\<rparr>)))
   = [''b'', ''c'', ''d'', ''e'', ''f'']"
  using transcription_history_window [of "(fragment Toutput ''f'')\<lparr>turnComplete := True\<rparr>"
      oneSecond 0 "initialApp\<lparr>transcriptions := map (\<lambda>t. \<lparr>itemText = t, itemType = Tinput\<rparr>)
          [''a'', ''b'', ''c'', ''d'', ''e'']\<rparr>"]
  by (simp add: fragment_def emptyMessage_def transcriptionStep_def turnItem_def initialApp_def)

end
